theory Spec2Isabelle
  imports Main "HOL-Library.Sublist"
begin

section \<open>JavaScript values and strings\<close>

text \<open>
  JavaScript strings are modelled as \<open>string\<close> (lists of 8-bit characters, read as the
  code points below 256). Numbers are modelled as integers; a symbol by its description;
  objects as lists of own properties that hold values (no methods, no accessors), read with
  \<open>map_of\<close>.
\<close>

datatype jsval =
    JUndefined
  | JNull
  | JBool bool
  | JNum int
  | JStr string
  | JSymbol string
  | JObj "(string \<times> jsval) list"

text \<open>What is thrown and caught: an \<open>Error\<close> object (\<open>new Error(message)\<close>, as the loader
  and the story-card functions throw), a \<open>TypeError\<close> object (as the language throws for a
  property access on \<open>undefined\<close> or a failed conversion), or any other value a hook
  throws.\<close>

datatype js_error = Error string | TypeError string | Thrown jsval

text \<open>\<open>isWhiteSpace\<close>: the characters matched by \<open>\s\<close> in a regular expression and stripped by
  \<open>String.prototype.trim\<close> (white space and line terminators), among the code points
  below 256: TAB, LF, VT, FF, CR, SPACE and NBSP.\<close>

definition isWhiteSpace :: "char \<Rightarrow> bool" where
  "isWhiteSpace c \<longleftrightarrow>
     c = CHR 0x09 \<or> c = CHR 0x0A \<or> c = CHR 0x0B \<or> c = CHR 0x0C \<or> c = CHR 0x0D
       \<or> c = CHR 0x20 \<or> c = CHR 0xA0"

text \<open>\<open>text.trim()\<close>.\<close>

definition trim :: "string \<Rightarrow> string" where
  "trim s = rev (dropWhile isWhiteSpace (rev (dropWhile isWhiteSpace s)))"

text \<open>\<open>xs.join(sep)\<close> on an array of strings.\<close>

fun join :: "string \<Rightarrow> string list \<Rightarrow> string" where
  "join sep [] = []"
| "join sep [x] = x"
| "join sep (x # y # ys) = x @ sep @ join sep (y # ys)"

subsection \<open>\<open>JSON.stringify\<close> on an array of strings\<close>

definition hex_digit :: "nat \<Rightarrow> char" where
  "hex_digit n = ''0123456789abcdef'' ! n"

text \<open>\<open>QuoteJSONString\<close>, one code unit: the two-character escapes, \<open>\u00XX\<close> for the
  other control characters, the character itself otherwise.\<close>

definition json_escape :: "char \<Rightarrow> string" where
  "json_escape c =
     (if c = CHR 0x22 then [CHR 0x5C, CHR 0x22]
      else if c = CHR 0x5C then [CHR 0x5C, CHR 0x5C]
      else if c = CHR 0x08 then [CHR 0x5C, CHR ''b'']
      else if c = CHR 0x0C then [CHR 0x5C, CHR ''f'']
      else if c = CHR 0x0A then [CHR 0x5C, CHR ''n'']
      else if c = CHR 0x0D then [CHR 0x5C, CHR ''r'']
      else if c = CHR 0x09 then [CHR 0x5C, CHR ''t'']
      else if (of_char c :: nat) < 32 then
        [CHR 0x5C, CHR ''u'', CHR ''0'', CHR ''0'',
         hex_digit ((of_char c :: nat) div 16), hex_digit ((of_char c :: nat) mod 16)]
      else [c])"

definition json_quote :: "string \<Rightarrow> string" where
  "json_quote s = CHR 0x22 # concat (map json_escape s) @ [CHR 0x22]"

definition JSON_stringify :: "string list \<Rightarrow> string" where
  "JSON_stringify ks = ''['' @ join '','' (map json_quote ks) @ '']''"

section \<open>Parameters.js: the shared world state and the story-card registry\<close>

text \<open>A story card \<open>{id, keys, entry, type}\<close>.\<close>

record story_card =
  card_id :: nat
  card_keys :: "string list"
  card_entry :: string
  card_type :: string

text \<open>The result of \<open>addStoryCard\<close>: \<open>false\<close>, or the index of the new card.\<close>

datatype add_result = AddFalse | AddIndex nat

text \<open>The default parameter \<open>type = "general"\<close>: \<open>None\<close> is an omitted argument.\<close>

definition type_or_default :: "string option \<Rightarrow> string" where
  "type_or_default t = (case t of None \<Rightarrow> ''general'' | Some x \<Rightarrow> x)"

definition addStoryCard ::
  "string list \<Rightarrow> string \<Rightarrow> string option \<Rightarrow> story_card list \<Rightarrow> add_result \<times> story_card list" where
  "addStoryCard keys entry ty storyCards =
     (let keyString = JSON_stringify keys;
          exists = list_ex (\<lambda>card. JSON_stringify (card_keys card) = keyString) storyCards
      in if exists then (AddFalse, storyCards)
         else
           (let newCard = \<lparr>card_id = length storyCards, card_keys = keys,
                            card_entry = entry, card_type = type_or_default ty\<rparr>;
                pushed = storyCards @ [newCard]
            in (AddIndex (length pushed - 1), pushed)))"

text \<open>\<open>storyCards.splice(index, 1)\<close> for an index in range.\<close>

definition splice1 :: "nat \<Rightarrow> 'a list \<Rightarrow> 'a list" where
  "splice1 i xs = take i xs @ drop (Suc i) xs"

definition removeStoryCard :: "int \<Rightarrow> story_card list \<Rightarrow> js_error + story_card list" where
  "removeStoryCard index storyCards =
     (if index < 0 \<or> index \<ge> int (length storyCards)
      then Inl (Error ''Story card does not exist'')
      else Inr (splice1 (nat index) storyCards))"

definition updateStoryCard ::
  "int \<Rightarrow> string list \<Rightarrow> string \<Rightarrow> string option \<Rightarrow> story_card list
     \<Rightarrow> js_error + story_card list" where
  "updateStoryCard index keys entry ty storyCards =
     (if index < 0 \<or> index \<ge> int (length storyCards)
      then Inl (Error ''Story card does not exist'')
      else Inr (storyCards[nat index :=
                  \<lparr>card_id = nat index, card_keys = keys, card_entry = entry,
                   card_type = type_or_default ty\<rparr>]))"

text \<open>A history entry \<open>{mode, text}\<close>. The text the engine pushes is a string, or
  \<open>undefined\<close> (\<open>None\<close>) when \<open>processInput\<close> or \<open>processOutput\<close> returned nothing.\<close>

record history_entry =
  h_mode :: string
  h_text :: "string option"

text \<open>
  The module-level data of Parameters.js that the engine and the hooks share by
  reference: \<open>history\<close>, \<open>storyCards\<close> and the value of \<open>state.memory\<close>, which a hook may
  extend or replace by any value.
\<close>

record world =
  history :: "history_entry list"
  storyCards :: "story_card list"
  memory :: jsval

definition initial_memory :: jsval where
  "initial_memory =
     JObj [(''context'', JStr ''''), (''authorsNote'', JStr ''''), (''frontMemory'', JStr '''')]"

text \<open>The module as loaded: \<open>history = []\<close>, \<open>storyCards = []\<close>,
  \<open>state = {memory: {context: "", authorsNote: "", frontMemory: ""}}\<close>.\<close>

definition module_world :: world where
  "module_world = \<lparr>history = [], storyCards = [], memory = initial_memory\<rparr>"

section \<open>Emulator: the turn engine\<close>

text \<open>
  The engine is sequential: each \<open>await\<close> is modelled as the call returning, so overlapping
  \<open>handleInput\<close> calls are not modelled. The DOM and the console are left out: the
  renderer and the log lines read the state and do not write \<open>history\<close>, \<open>state\<close> or
  \<open>currentSide\<close>. What is kept of them is what they read and convert, and so whether they
  throw.
\<close>

datatype side = User | AI

text \<open>The \<open>Emulator\<close> object's \<open>currentSide\<close> and \<open>selectedMode\<close>, whether \<open>wireDOM\<close> found
  the element that \<open>this.dom.mainTextWindow\<close> refers to, and the module data the object
  operates on.\<close>

record session =
  currentSide :: side
  selectedMode :: string
  mainTextWindow :: bool
  shared :: world

text \<open>
  \<open>runInputModifier(globals)\<close>, \<open>runContextModifier(globals)\<close>, \<open>runOutputModifier(globals)\<close>
  as the engine sees them: given \<open>globals.text\<close> and the shared data that the other
  bindings of \<open>getHookGlobals\<close> refer to, a run either throws (\<open>Inl\<close>) or returns a value
  (\<open>Inr\<close>), and leaves the shared data as the hook's side effects made it. A run that
  never returns is not modelled.
\<close>

type_synonym hook_run = "string \<Rightarrow> world \<Rightarrow> (js_error + jsval) \<times> world"

record runners =
  runInputModifier :: hook_run
  runContextModifier :: hook_run
  runOutputModifier :: hook_run

text \<open>Truthiness of a value, as \<open>&&\<close> and \<open>if\<close> test it.\<close>

fun truthy :: "jsval \<Rightarrow> bool" where
  "truthy JUndefined = False"
| "truthy JNull = False"
| "truthy (JBool b) = b"
| "truthy (JNum n) = (n \<noteq> 0)"
| "truthy (JStr s) = (s \<noteq> [])"
| "truthy (JSymbol d) = True"
| "truthy (JObj fs) = True"

text \<open>\<open>v.p\<close> for a property \<open>p\<close> that no prototype defines (\<open>text\<close>, \<open>message\<close>,
  \<open>transformedContext\<close>): a \<open>TypeError\<close> on \<open>undefined\<close> and \<open>null\<close>, the own property of an
  object, \<open>undefined\<close> on the other primitives.\<close>

fun get_prop :: "jsval \<Rightarrow> string \<Rightarrow> js_error + jsval" where
  "get_prop JUndefined p = Inl (TypeError ''Cannot read properties of undefined'')"
| "get_prop JNull p = Inl (TypeError ''Cannot read properties of null'')"
| "get_prop (JObj fs) p = Inr (case map_of fs p of None \<Rightarrow> JUndefined | Some v \<Rightarrow> v)"
| "get_prop v p = Inr JUndefined"

text \<open>Writing an own property of an object: an existing property keeps its place, a new
  one goes to the end.\<close>

fun put_property :: "string \<Rightarrow> jsval \<Rightarrow> (string \<times> jsval) list \<Rightarrow> (string \<times> jsval) list" where
  "put_property p v [] = [(p, v)]"
| "put_property p v ((q, u) # fs) = (if q = p then (p, v) # fs else (q, u) # put_property p v fs)"

text \<open>\<open>o.p = v\<close> in the strict code of a module: it throws a \<open>TypeError\<close> unless \<open>o\<close> is an
  object.\<close>

fun set_prop :: "jsval \<Rightarrow> string \<Rightarrow> jsval \<Rightarrow> js_error + jsval" where
  "set_prop (JObj fs) p v = Inr (JObj (put_property p v fs))"
| "set_prop JUndefined p v = Inl (TypeError ''Cannot set properties of undefined'')"
| "set_prop JNull p v = Inl (TypeError ''Cannot set properties of null'')"
| "set_prop u p v = Inl (TypeError ''Cannot create property on a primitive value'')"

fun typeof :: "jsval \<Rightarrow> string" where
  "typeof JUndefined = ''undefined''"
| "typeof JNull = ''object''"
| "typeof (JBool b) = ''boolean''"
| "typeof (JNum n) = ''number''"
| "typeof (JStr s) = ''string''"
| "typeof (JSymbol d) = ''symbol''"
| "typeof (JObj fs) = ''object''"

text \<open>
  The conversion to a string that a template literal and \<open>+\<close> with a string apply: what
  it throws, if it throws. A symbol cannot be converted; an object is converted by the
  inherited \<open>toString\<close>, unless an own property \<open>toString\<close> (a value, so not callable) hides
  it. The string it yields reaches only the log.
\<close>

fun ToString_throws :: "jsval \<Rightarrow> js_error option" where
  "ToString_throws (JSymbol d) = Some (TypeError ''Cannot convert a Symbol value to a string'')"
| "ToString_throws (JObj fs) =
     (if map_of fs ''toString'' = None then None
      else Some (TypeError ''Cannot convert object to primitive value''))"
| "ToString_throws v = None"

text \<open>\<open>`${err}`\<close> for a caught \<open>err\<close>.\<close>

fun error_ToString_throws :: "js_error \<Rightarrow> js_error option" where
  "error_ToString_throws (Error m) = None"
| "error_ToString_throws (TypeError m) = None"
| "error_ToString_throws (Thrown v) = ToString_throws v"

text \<open>\<open>"..." + err.message\<close> for a caught \<open>err\<close>.\<close>

fun message_concat_throws :: "js_error \<Rightarrow> js_error option" where
  "message_concat_throws (Error m) = None"
| "message_concat_throws (TypeError m) = None"
| "message_concat_throws (Thrown v) =
     (case get_prop v ''message'' of Inl err \<Rightarrow> Some err | Inr m \<Rightarrow> ToString_throws m)"

text \<open>
  The \<open>try\<close> block of \<open>safeCallHook\<close> after the \<open>switch\<close>:
  \<open>result && typeof result.text === "string"\<close> returns \<open>result.text\<close>; every other result is
  the invalid shape, and returns \<open>arg\<close>.
\<close>

definition accept_result :: "string \<Rightarrow> jsval \<Rightarrow> js_error + string" where
  "accept_result arg result =
     (if truthy result then
        (case get_prop result ''text'' of
           Inl err \<Rightarrow> Inl err
         | Inr t \<Rightarrow>
             if typeof t = ''string'' then (case t of JStr s \<Rightarrow> Inr s | _ \<Rightarrow> Inr arg)
             else Inr arg)
      else Inr arg)"

text \<open>The \<open>catch\<close> block of \<open>safeCallHook\<close>: the log line \<open>`Hook ${name} threw: ${err}`\<close>
  converts \<open>err\<close> to a string, and throws where that conversion throws; then \<open>return arg\<close>.\<close>

definition hook_catch :: "string \<Rightarrow> js_error \<Rightarrow> js_error + string" where
  "hook_catch arg err =
     (case error_ToString_throws err of Some thrown \<Rightarrow> Inl thrown | None \<Rightarrow> Inr arg)"

text \<open>The \<open>switch (name)\<close> of \<open>safeCallHook\<close>: the run bound to a hook name, \<open>None\<close> for the
  \<open>default\<close> case.\<close>

definition dispatch :: "runners \<Rightarrow> string \<Rightarrow> hook_run option" where
  "dispatch rs name =
     (if name = ''inputModifier'' then Some (runInputModifier rs)
      else if name = ''contextModifier'' then Some (runContextModifier rs)
      else if name = ''outputModifier'' then Some (runOutputModifier rs)
      else None)"

definition safeCallHook ::
  "runners \<Rightarrow> string \<Rightarrow> string \<Rightarrow> world \<Rightarrow> (js_error + string) \<times> world" where
  "safeCallHook rs name arg w =
     (case dispatch rs name of
        None \<Rightarrow> (Inr arg, w)
      | Some run \<Rightarrow>
          (let (r, w') = run arg w;
               tried = (case r of Inl err \<Rightarrow> Inl err | Inr result \<Rightarrow> accept_result arg result)
           in case tried of
                Inr out \<Rightarrow> (Inr out, w')
              | Inl err \<Rightarrow> (hook_catch arg err, w')))"

text \<open>
  \<open>processInput\<close> and \<open>processOutput\<close>: the value returned is \<open>modified\<close>, or \<open>undefined\<close>
  (\<open>None\<close>) when their \<open>catch\<close> was entered, which logs \<open>"Error ...: " + err.message\<close>;
  \<open>mode\<close> is used in a log line only.
\<close>

definition processInput ::
  "runners \<Rightarrow> string \<Rightarrow> string \<Rightarrow> world \<Rightarrow> (js_error + string option) \<times> world" where
  "processInput rs mode rawText w =
     (let (r, w') = safeCallHook rs ''inputModifier'' rawText w
      in case r of
           Inr modified \<Rightarrow> (Inr (Some modified), w')
         | Inl err \<Rightarrow>
             (case message_concat_throws err of
                Some thrown \<Rightarrow> (Inl thrown, w')
              | None \<Rightarrow> (Inr None, w')))"

definition processOutput ::
  "runners \<Rightarrow> string \<Rightarrow> world \<Rightarrow> (js_error + string option) \<times> world" where
  "processOutput rs rawText w =
     (let (r, w') = safeCallHook rs ''outputModifier'' rawText w
      in case r of
           Inr modified \<Rightarrow> (Inr (Some modified), w')
         | Inl err \<Rightarrow>
             (case message_concat_throws err of
                Some thrown \<Rightarrow> (Inl thrown, w')
              | None \<Rightarrow> (Inr None, w')))"

text \<open>\<open>`${h.text}`\<close> for a history entry.\<close>

definition entry_text :: "history_entry \<Rightarrow> string" where
  "entry_text h = (case h_text h of None \<Rightarrow> ''undefined'' | Some t \<Rightarrow> t)"

definition rawContext :: "world \<Rightarrow> string" where
  "rawContext w = join [CHR 0x0A] (map entry_text (history w))"

text \<open>\<open>processContext\<close>: the write \<open>state.memory.frontMemory = ""\<close> stands outside any
  \<open>try\<close>, and so does the call of \<open>safeCallHook\<close>.\<close>

definition processContext :: "runners \<Rightarrow> world \<Rightarrow> (js_error + string) \<times> world" where
  "processContext rs w =
     (let raw = rawContext w
      in case set_prop (memory w) ''frontMemory'' (JStr '''') of
           Inl err \<Rightarrow> (Inl err, w)
         | Inr m \<Rightarrow> safeCallHook rs ''contextModifier'' raw (w\<lparr>memory := m\<rparr>))"

text \<open>\<open>history.push(e)\<close>.\<close>

definition push_history :: "history_entry \<Rightarrow> world \<Rightarrow> world" where
  "push_history e w = w\<lparr>history := history w @ [e]\<rparr>"

text \<open>\<open>mode = mode || this.selectedMode || "say"\<close>; \<open>None\<close> is an omitted mode, and the empty
  string is falsy.\<close>

definition effective_mode :: "string option \<Rightarrow> string \<Rightarrow> string" where
  "effective_mode mode selected =
     (case mode of
        Some m \<Rightarrow> if m \<noteq> [] then m else if selected \<noteq> [] then selected else ''say''
      | None \<Rightarrow> if selected \<noteq> [] then selected else ''say'')"

text \<open>The constructor with \<open>init\<close> run to its end (it has no \<open>await\<close>, so it has pushed the
  session-start entry when the constructor returns; \<open>handleInput\<close> awaits it anyway), on a
  page that has the element of the main text window. The first rendering, by \<open>init\<close>, is
  of the user view and reads nothing that can make it throw.\<close>

definition init :: "session \<Rightarrow> session" where
  "init s = s\<lparr>shared := push_history
                 \<lparr>h_mode = ''start'', h_text = Some ''=== New Session Started ===''\<rparr> (shared s)\<rparr>"

definition new_Emulator :: "world \<Rightarrow> session" where
  "new_Emulator w =
     init \<lparr>currentSide = User, selectedMode = ''say'', mainTextWindow = True, shared = w\<rparr>"

text \<open>\<open>String(v)\<close>, as \<open>escapeHtml\<close> applies it to a value that is not \<open>null\<close> or
  \<open>undefined\<close>: what it throws, if it throws. Unlike a template literal, \<open>String\<close> converts
  a symbol.\<close>

fun String_throws :: "jsval \<Rightarrow> js_error option" where
  "String_throws (JObj fs) =
     (if map_of fs ''toString'' = None then None
      else Some (TypeError ''Cannot convert object to primitive value''))"
| "String_throws v = None"

text \<open>\<open>buildAIView(context)\<close>: nothing is read for a context that is \<open>undefined\<close> or empty;
  otherwise \<open>this.escapeHtml(state.memory.frontMemory || "")\<close> reads \<open>state.memory\<close>.
  \<open>buildUserView\<close> converts the texts of the history entries, which does not throw.\<close>

definition buildAIView_throws :: "string option \<Rightarrow> world \<Rightarrow> js_error option" where
  "buildAIView_throws context w =
     (case context of
        None \<Rightarrow> None
      | Some c \<Rightarrow>
          if c = [] then None
          else (case get_prop (memory w) ''frontMemory'' of
                  Inl err \<Rightarrow> Some err
                | Inr v \<Rightarrow> if truthy v then String_throws v else None))"

text \<open>\<open>renderer_updateMainView(context)\<close>: it returns at once without the element of the
  main text window, and builds the user view or the AI view by \<open>currentSide\<close>.\<close>

definition renderer_updateMainView_throws :: "session \<Rightarrow> string option \<Rightarrow> js_error option" where
  "renderer_updateMainView_throws s context =
     (if \<not> mainTextWindow s then None
      else if currentSide s = User then None
      else buildAIView_throws context (shared s))"

text \<open>The end of \<open>handleInput\<close>: the state is updated, and the call returns \<open>context\<close> to
  the renderer unless rendering throws.\<close>

definition rendered :: "string option \<Rightarrow> session \<Rightarrow> (js_error + string option) \<times> session" where
  "rendered context s =
     (case renderer_updateMainView_throws s context of
        Some err \<Rightarrow> (Inl err, s)
      | None \<Rightarrow> (Inr context, s))"

text \<open>
  \<open>handleInput(mode, text)\<close>, for a string \<open>text\<close>. The first component of the result is
  \<open>Inl\<close> when the call throws (the promise rejects), and otherwise the local \<open>context\<close> that
  was handed to \<open>renderer_updateMainView\<close> (\<open>None\<close> where it is \<open>undefined\<close>, and on the early
  return for blank text). The second component is the state the call leaves, which is
  there after a throw as well: what was pushed stays pushed.
\<close>

definition handleInput ::
  "runners \<Rightarrow> string option \<Rightarrow> string \<Rightarrow> session \<Rightarrow> (js_error + string option) \<times> session" where
  "handleInput rs mode text s =
     (let mode' = effective_mode mode (selectedMode s)
      in if trim text = [] then (Inr None, s)
         else if currentSide s = User then
           (let (r1, w1) = processInput rs mode' text (shared s)
            in case r1 of
                 Inl err \<Rightarrow> (Inl err, s\<lparr>shared := w1\<rparr>)
               | Inr newText \<Rightarrow>
                   (let w2 = push_history \<lparr>h_mode = '''', h_text = newText\<rparr> w1;
                        (r2, w3) = processContext rs w2
                    in case r2 of
                         Inl err \<Rightarrow> (Inl err, s\<lparr>shared := w3\<rparr>)
                       | Inr context \<Rightarrow> rendered (Some context) (s\<lparr>shared := w3, currentSide := AI\<rparr>)))
         else
           (let (r1, w1) = processOutput rs text (shared s)
            in case r1 of
                 Inl err \<Rightarrow> (Inl err, s\<lparr>shared := w1\<rparr>)
               | Inr newText \<Rightarrow>
                   (let w2 = push_history \<lparr>h_mode = '''', h_text = newText\<rparr> w1
                    in rendered None (s\<lparr>shared := w2, currentSide := User\<rparr>))))"

text \<open>A sequence of calls \<open>handleInput(mode, text)\<close>, one after the other has settled; a call
  that throws leaves its state to the next.\<close>

fun handle_all :: "runners \<Rightarrow> (string option \<times> string) list \<Rightarrow> session \<Rightarrow> session" where
  "handle_all rs [] s = s"
| "handle_all rs ((mode, text) # turns) s = handle_all rs turns (snd (handleInput rs mode text s))"


section \<open>Hooks used to state the properties\<close>

text \<open>A hook that leaves \<open>history\<close> as it found it, whatever it returns or throws.\<close>

definition keeps_history :: "hook_run \<Rightarrow> bool" where
  "keeps_history run \<longleftrightarrow> (\<forall>arg w. history (snd (run arg w)) = history w)"

definition hooks_keep_history :: "runners \<Rightarrow> bool" where
  "hooks_keep_history rs \<longleftrightarrow>
     keeps_history (runInputModifier rs) \<and> keeps_history (runContextModifier rs)
       \<and> keeps_history (runOutputModifier rs)"

text \<open>A hook that removes or rewrites no entry of \<open>history\<close>; it may push entries.\<close>

definition extends_history :: "hook_run \<Rightarrow> bool" where
  "extends_history run \<longleftrightarrow> (\<forall>arg w. prefix (history w) (history (snd (run arg w))))"

definition hooks_extend_history :: "runners \<Rightarrow> bool" where
  "hooks_extend_history rs \<longleftrightarrow>
     extends_history (runInputModifier rs) \<and> extends_history (runContextModifier rs)
       \<and> extends_history (runOutputModifier rs)"

text \<open>A hook that leaves \<open>state.memory\<close> as it found it.\<close>

definition keeps_memory :: "hook_run \<Rightarrow> bool" where
  "keeps_memory run \<longleftrightarrow> (\<forall>arg w. memory (snd (run arg w)) = memory w)"

definition hooks_keep_memory :: "runners \<Rightarrow> bool" where
  "hooks_keep_memory rs \<longleftrightarrow>
     keeps_memory (runInputModifier rs) \<and> keeps_memory (runContextModifier rs)
       \<and> keeps_memory (runOutputModifier rs)"

text \<open>A hook that throws, when it throws, a value that converts to a string: an error
  object, a string, a number.\<close>

definition throws_printable :: "hook_run \<Rightarrow> bool" where
  "throws_printable run \<longleftrightarrow>
     (\<forall>arg w. case fst (run arg w) of Inl err \<Rightarrow> error_ToString_throws err = None | Inr v \<Rightarrow> True)"

definition hooks_throw_printable :: "runners \<Rightarrow> bool" where
  "hooks_throw_printable rs \<longleftrightarrow>
     throws_printable (runInputModifier rs) \<and> throws_printable (runContextModifier rs)
       \<and> throws_printable (runOutputModifier rs)"

text \<open>Whether a value is an object.\<close>

fun is_object :: "jsval \<Rightarrow> bool" where
  "is_object (JObj fs) = True"
| "is_object v = False"

text \<open>The hooks of the scenarios: a run whose modifier returns a fixed value, the
  identity hook \<open>const modifier = (text) => ({ text })\<close>, and a run that throws; none of
  them touches the shared data. \<open>all_hooks\<close> binds one run to the three hooks.\<close>

definition constant_run :: "jsval \<Rightarrow> hook_run" where
  "constant_run v arg w = (Inr v, w)"

definition identity_run :: hook_run where
  "identity_run arg w = (Inr (JObj [(''text'', JStr arg)]), w)"

definition throwing_run :: "js_error \<Rightarrow> hook_run" where
  "throwing_run err arg w = (Inl err, w)"

definition all_hooks :: "hook_run \<Rightarrow> runners" where
  "all_hooks run = \<lparr>runInputModifier = run, runContextModifier = run, runOutputModifier = run\<rparr>"

definition identity_hooks :: runners where
  "identity_hooks = all_hooks identity_run"

text \<open>Hooks with side effects on the shared data, each going on as another run does:
  \<open>history.push(e)\<close>, \<open>history.length = 0\<close>, and \<open>state.memory = v\<close>.\<close>

definition pushing :: "history_entry \<Rightarrow> hook_run \<Rightarrow> hook_run" where
  "pushing e run arg w = run arg (push_history e w)"

definition clearing :: "hook_run \<Rightarrow> hook_run" where
  "clearing run arg w = run arg (w\<lparr>history := []\<rparr>)"

definition replacing_memory :: "jsval \<Rightarrow> hook_run \<Rightarrow> hook_run" where
  "replacing_memory v run arg w = run arg (w\<lparr>memory := v\<rparr>)"

text \<open>Identity hooks, except for the input hook.\<close>

definition with_input_hook :: "hook_run \<Rightarrow> runners" where
  "with_input_hook run =
     \<lparr>runInputModifier = run, runContextModifier = identity_run, runOutputModifier = identity_run\<rparr>"

text \<open>Identity hooks, except for the context hook.\<close>

definition with_context_hook :: "hook_run \<Rightarrow> runners" where
  "with_context_hook run =
     \<lparr>runInputModifier = identity_run, runContextModifier = run, runOutputModifier = identity_run\<rparr>"

text \<open>The text of the entry a turn pushes: the string \<open>safeCallHook\<close> returned, or
  \<open>undefined\<close> where it threw.\<close>

definition pushed_text :: "js_error + string \<Rightarrow> string option" where
  "pushed_text r = (case r of Inr m \<Rightarrow> Some m | Inl err \<Rightarrow> None)"

text \<open>The shape \<open>safeCallHook\<close> accepts: an object whose \<open>text\<close> property is a string.\<close>

fun has_string_text :: "jsval \<Rightarrow> bool" where
  "has_string_text (JObj fs) = (case map_of fs ''text'' of Some (JStr s) \<Rightarrow> True | _ \<Rightarrow> False)"
| "has_string_text v = False"

text \<open>The session-start entry pushed by \<open>init\<close>.\<close>

definition start_entry :: history_entry where
  "start_entry = \<lparr>h_mode = ''start'', h_text = Some ''=== New Session Started ===''\<rparr>"

section \<open>The loader that rewrites the trailing call (header comment \<open>Loader.js\<close>)\<close>

text \<open>The response of \<open>fetch\<close>, as far as the loader reads it: \<open>ok\<close>, \<open>statusText\<close> and the
  body that \<open>text()\<close> resolves to. A fetch that rejects is \<open>Inl\<close>.\<close>

record response =
  ok :: bool
  statusText :: string
  body :: string

type_synonym fetcher = "string \<Rightarrow> js_error + response"

text \<open>
  \<open>new Function('globals', source)\<close> applied to \<open>globals\<close>: the JavaScript engine is a
  parameter of the model. Given the source of the function body, \<open>globals.text\<close> and the
  shared data the other globals refer to, it throws (a syntax error, or whatever the body
  throws) or returns the body's value.
\<close>

type_synonym js_engine = "string \<Rightarrow> string \<Rightarrow> world \<Rightarrow> (js_error + jsval) \<times> world"

text \<open>The rest of \<open>s\<close> after the literal \<open>p\<close>, if \<open>s\<close> starts with it.\<close>

fun after_prefix :: "string \<Rightarrow> string \<Rightarrow> string option" where
  "after_prefix [] s = Some s"
| "after_prefix (p # ps) [] = None"
| "after_prefix (p # ps) (c # cs) = (if p = c then after_prefix ps cs else None)"

text \<open>\<open>\s*\<close>: in the pattern below it is always followed by a character that is not white
  space or by the end, so it consumes the whole run.\<close>

definition skip_ws :: "string \<Rightarrow> string" where
  "skip_ws s = dropWhile isWhiteSpace s"

text \<open>Whether \<open>/modifier\s*\(\s*text\s*\)\s*;?\s*$/\<close> matches \<open>s\<close> from its first character to
  its end.\<close>

definition matches_trailing_call :: "string \<Rightarrow> bool" where
  "matches_trailing_call s =
     (case after_prefix ''modifier'' s of
        None \<Rightarrow> False
      | Some r1 \<Rightarrow>
          (case after_prefix ''('' (skip_ws r1) of
             None \<Rightarrow> False
           | Some r2 \<Rightarrow>
               (case after_prefix ''text'' (skip_ws r2) of
                  None \<Rightarrow> False
                | Some r3 \<Rightarrow>
                    (case after_prefix '')'' (skip_ws r3) of
                       None \<Rightarrow> False
                     | Some r4 \<Rightarrow>
                         (case after_prefix '';'' (skip_ws r4) of
                            None \<Rightarrow> skip_ws r4 = []
                          | Some r5 \<Rightarrow> skip_ws r5 = [])))))"

text \<open>
  Step 2 of this loader,
  \<open>modifierSource.replace(/modifier\s*\(\s*text\s*\)\s*;?\s*$/, 'return modifier(text);')\<close>:
  the first position from which the pattern matches up to the end is where the
  replacement goes; a source without a match is returned as it is.
\<close>

fun capture_call :: "string \<Rightarrow> string" where
  "capture_call [] = []"
| "capture_call (c # cs) =
     (if matches_trailing_call (c # cs) then ''return modifier(text);'' else c # capture_call cs)"

text \<open>Step 3: one \<open>let\<close> per key of \<open>globals\<close>, joined by newlines.\<close>

definition global_let :: "string \<Rightarrow> string" where
  "global_let key = ''let '' @ key @ '' = globals['' @ [CHR 0x22] @ key @ [CHR 0x22] @ ''];''"

definition globalsCode :: "string list \<Rightarrow> string" where
  "globalsCode keys = join [CHR 0x0A] (map global_let keys)"

text \<open>Step 4: the body of the sandbox function.\<close>

definition sandbox_source :: "string \<Rightarrow> string \<Rightarrow> string \<Rightarrow> string" where
  "sandbox_source globals_code librarySource modifierSource =
     [CHR 0x0A] @ ''    // --- Inject emulator globals as local variables'' @ [CHR 0x0A]
     @ ''    '' @ globals_code @ [CHR 0x0A]
     @ [CHR 0x0A]
     @ ''    // --- Execute Library.js first'' @ [CHR 0x0A]
     @ ''    '' @ librarySource @ [CHR 0x0A]
     @ ''    '' @ [CHR 0x0A]
     @ ''    // --- Then execute modifier file (with capture)'' @ [CHR 0x0A]
     @ ''    '' @ modifierSource @ [CHR 0x0A]
     @ ''  ''"

text \<open>\<open>loadModifier(modifierPath, globals)\<close>; \<open>keys\<close> are the keys of \<open>globals\<close>.\<close>

definition loadModifier ::
  "fetcher \<Rightarrow> js_engine \<Rightarrow> string \<Rightarrow> string list \<Rightarrow> string \<Rightarrow> world
     \<Rightarrow> (js_error + jsval) \<times> world" where
  "loadModifier fetch engine modifierPath keys text w =
     (case fetch ''../Script/Library.js'' of
        Inl err \<Rightarrow> (Inl err, w)
      | Inr libResp \<Rightarrow>
          (case fetch modifierPath of
             Inl err \<Rightarrow> (Inl err, w)
           | Inr modResp \<Rightarrow>
               if \<not> ok libResp then
                 (Inl (Error (''Failed to load Library.js: '' @ statusText libResp)), w)
               else if \<not> ok modResp then
                 (Inl (Error (''Failed to load '' @ modifierPath @ '': '' @ statusText modResp)), w)
               else
                 (let librarySource = body libResp;
                      modifierSource = capture_call (body modResp)
                  in engine (sandbox_source (globalsCode keys) librarySource modifierSource)
                       text w)))"

text \<open>The keys of the object \<open>getHookGlobals\<close> builds, and the three exported runs.\<close>

definition hook_global_keys :: "string list" where
  "hook_global_keys = [''state'', ''text'', ''history'', ''storyCards'', ''addStoryCard'',
                       ''removeStoryCard'', ''updateStoryCard'']"

definition loader_runners :: "fetcher \<Rightarrow> js_engine \<Rightarrow> runners" where
  "loader_runners fetch engine =
     \<lparr>runInputModifier = loadModifier fetch engine ''../Script/Input.js'' hook_global_keys,
      runContextModifier = loadModifier fetch engine ''../Script/Context.js'' hook_global_keys,
      runOutputModifier = loadModifier fetch engine ''../Script/Output.js'' hook_global_keys\<rparr>"

section \<open>emulator/Loader.js: the loader that appends a call (header comment \<open>sandboxLoader.js\<close>)\<close>

text \<open>Step 2 there appends a call instead of rewriting the source's own:
  \<open>modifierSource += `\n__modifierReturn = modifier(text);`\<close>.\<close>

definition append_capture :: "string \<Rightarrow> string" where
  "append_capture modifierSource = modifierSource @ [CHR 0x0A] @ ''__modifierReturn = modifier(text);''"

text \<open>Step 4 there: the globals are spread onto \<open>globalThis\<close>, and the body ends by
  returning \<open>globals.__modifierReturn\<close>.\<close>

definition sandboxLoader_source :: "string \<Rightarrow> string \<Rightarrow> string" where
  "sandboxLoader_source librarySource modifierSource =
     [CHR 0x0A] @ ''    // Spread all provided globals onto globalThis'' @ [CHR 0x0A]
     @ ''    Object.assign(globalThis, globals);'' @ [CHR 0x0A]
     @ [CHR 0x0A]
     @ ''    // --- Execute Library.js first'' @ [CHR 0x0A]
     @ ''    '' @ librarySource @ [CHR 0x0A]
     @ [CHR 0x0A]
     @ ''    // --- Then execute modifier.js (with capture)'' @ [CHR 0x0A]
     @ ''    '' @ modifierSource @ [CHR 0x0A]
     @ [CHR 0x0A]
     @ ''    // --- Return captured modifier result'' @ [CHR 0x0A]
     @ ''    return globals.__modifierReturn;'' @ [CHR 0x0A]
     @ ''  ''"

definition sandboxLoader_loadModifier ::
  "fetcher \<Rightarrow> js_engine \<Rightarrow> string \<Rightarrow> string \<Rightarrow> world \<Rightarrow> (js_error + jsval) \<times> world" where
  "sandboxLoader_loadModifier fetch engine modifierPath text w =
     (case fetch ''./Library.js'' of
        Inl err \<Rightarrow> (Inl err, w)
      | Inr libResp \<Rightarrow>
          (case fetch modifierPath of
             Inl err \<Rightarrow> (Inl err, w)
           | Inr modResp \<Rightarrow>
               if \<not> ok libResp then
                 (Inl (Error (''Failed to load Library.js: '' @ statusText libResp)), w)
               else if \<not> ok modResp then
                 (Inl (Error (''Failed to load '' @ modifierPath @ '': '' @ statusText modResp)), w)
               else
                 (let librarySource = body libResp;
                      modifierSource = append_capture (body modResp)
                  in engine (sandboxLoader_source librarySource modifierSource) text w)))"

text \<open>The number of positions of a source at which the text \<open>modifier(text)\<close> starts: the
  calls written in it (a declaration \<open>function modifier(text)\<close> would count as well).\<close>

fun count_calls :: "string \<Rightarrow> nat" where
  "count_calls [] = 0"
| "count_calls (c # cs) =
     (if after_prefix ''modifier(text)'' (c # cs) \<noteq> None then 1 else 0) + count_calls cs"

text \<open>A hook source that follows the script contract, without and with the semicolon, and
  a server that serves a library and a hook source under every path.\<close>

definition identity_hook_source :: string where
  "identity_hook_source = ''const modifier = (text) => ({ text })'' @ [CHR 0x0A] @ ''modifier(text)''"

definition serving :: "string \<Rightarrow> string \<Rightarrow> fetcher" where
  "serving librarySource modifierSource path =
     Inr \<lparr>ok = True, statusText = ''OK'',
          body = (if path = ''../Script/Library.js'' \<or> path = ''./Library.js''
                  then librarySource else modifierSource)\<rparr>"

section \<open>Devices of the proofs\<close>

text \<open>The length of the first escape token of a quoted JSON string, and the character a
  token stands for; they show that \<open>json_escape\<close> is a prefix-free, injective code.\<close>

fun tok_len :: "string \<Rightarrow> nat" where
  "tok_len [] = 0"
| "tok_len [c] = 1"
| "tok_len (c # d # rest) = (if c = CHR 0x5C then (if d = CHR ''u'' then 6 else 2) else 1)"

fun hex_value :: "char \<Rightarrow> nat" where
  "hex_value c = length (takeWhile (\<lambda>d. d \<noteq> c) ''0123456789abcdef'')"

fun unescape_token :: "string \<Rightarrow> char" where
  "unescape_token [c] = c"
| "unescape_token [b, c] =
     (if c = CHR ''b'' then CHR 0x08 else if c = CHR ''f'' then CHR 0x0C
      else if c = CHR ''n'' then CHR 0x0A else if c = CHR ''r'' then CHR 0x0D
      else if c = CHR ''t'' then CHR 0x09 else c)"
| "unescape_token [b, u, z1, z2, h, l] = char_of (16 * hex_value h + hex_value l)"
| "unescape_token s = CHR 0x00"

section \<open>Properties of the turn engine\<close>

lemma accept_result_eq:
  "accept_result arg v =
     Inr (case v of JObj fs \<Rightarrow> (case map_of fs ''text'' of Some (JStr s) \<Rightarrow> s | _ \<Rightarrow> arg) | _ \<Rightarrow> arg)"
  by (cases v) (auto simp: accept_result_def split: option.splits jsval.splits)

lemma accept_result_invalid: "\<not> has_string_text v \<Longrightarrow> accept_result arg v = Inr arg"
  by (cases v) (auto simp: accept_result_eq split: option.splits jsval.splits)

lemma safeCallHook_returned:
  "dispatch rs name = Some run \<Longrightarrow> run arg w = (Inr v, w') \<Longrightarrow>
     safeCallHook rs name arg w = (accept_result arg v, w')"
  by (simp add: safeCallHook_def accept_result_eq)

lemma safeCallHook_thrown:
  "dispatch rs name = Some run \<Longrightarrow> run arg w = (Inl err, w') \<Longrightarrow>
     safeCallHook rs name arg w = (hook_catch arg err, w')"
  by (simp add: safeCallHook_def)


lemma safeCallHook_snd:
  "snd (safeCallHook rs name arg w) = (case dispatch rs name of None \<Rightarrow> w | Some run \<Rightarrow> snd (run arg w))"
  by (auto simp: safeCallHook_def Let_def split: option.splits prod.splits sum.splits)

lemma ToString_throws_TypeError: "ToString_throws v = Some err \<Longrightarrow> \<exists>m. err = TypeError m"
  by (cases v) (auto split: if_splits)

lemma hook_catch_cases:
  "hook_catch arg err = Inr arg \<or> (\<exists>m. hook_catch arg err = Inl (TypeError m))"
  by (cases err) (auto simp: hook_catch_def split: option.splits dest: ToString_throws_TypeError)

lemma safeCallHook_throws_TypeError:
  assumes "fst (safeCallHook rs name arg w) = Inl err"
  shows "\<exists>m. err = TypeError m"
proof (cases "dispatch rs name")
  case None
  with assms show ?thesis by (simp add: safeCallHook_def)
next
  case (Some run)
  obtain r w' where rw: "run arg w = (r, w')" by (cases "run arg w")
  show ?thesis
  proof (cases r)
    case (Inl e)
    with Some rw assms have "hook_catch arg e = Inl err" by (simp add: safeCallHook_thrown)
    with hook_catch_cases [of arg e] show ?thesis by auto
  next
    case (Inr v)
    with Some rw assms show ?thesis by (simp add: safeCallHook_returned accept_result_eq)
  qed
qed

lemma processInput_eq:
  "processInput rs mode rawText w =
     (Inr (case fst (safeCallHook rs ''inputModifier'' rawText w) of Inr m \<Rightarrow> Some m | Inl err \<Rightarrow> None),
      snd (safeCallHook rs ''inputModifier'' rawText w))"
proof (cases "safeCallHook rs ''inputModifier'' rawText w")
  case (Pair r w')
  show ?thesis
  proof (cases r)
    case (Inl err)
    with Pair have "fst (safeCallHook rs ''inputModifier'' rawText w) = Inl err" by simp
    then obtain m where "err = TypeError m" by (auto dest: safeCallHook_throws_TypeError)
    with Pair Inl show ?thesis by (simp add: processInput_def)
  next
    case (Inr m)
    with Pair show ?thesis by (simp add: processInput_def)
  qed
qed

lemma processOutput_eq:
  "processOutput rs rawText w =
     (Inr (case fst (safeCallHook rs ''outputModifier'' rawText w) of Inr m \<Rightarrow> Some m | Inl err \<Rightarrow> None),
      snd (safeCallHook rs ''outputModifier'' rawText w))"
proof (cases "safeCallHook rs ''outputModifier'' rawText w")
  case (Pair r w')
  show ?thesis
  proof (cases r)
    case (Inl err)
    with Pair have "fst (safeCallHook rs ''outputModifier'' rawText w) = Inl err" by simp
    then obtain m where "err = TypeError m" by (auto dest: safeCallHook_throws_TypeError)
    with Pair Inl show ?thesis by (simp add: processOutput_def)
  next
    case (Inr m)
    with Pair show ?thesis by (simp add: processOutput_def)
  qed
qed

lemma rendered_snd: "snd (rendered context s) = s"
  by (simp add: rendered_def split: option.splits)

lemma rendered_fst: "fst (rendered context s) = Inr c \<Longrightarrow> c = context"
  by (simp add: rendered_def split: option.splits)

lemma rendered_cases:
  "rendered context s = (Inr context, s) \<or> (\<exists>err. rendered context s = (Inl err, s))"
  by (simp add: rendered_def split: option.splits)



lemma handleInput_blank: "trim text = [] \<Longrightarrow> handleInput rs mode text s = (Inr None, s)"
  by (simp add: handleInput_def)

lemma handleInput_user:
  assumes "trim text \<noteq> []" and "currentSide s = User"
  shows "handleInput rs mode text s =
           (let r1 = safeCallHook rs ''inputModifier'' text (shared s);
                w2 = push_history \<lparr>h_mode = '''', h_text = pushed_text (fst r1)\<rparr> (snd r1);
                r2 = processContext rs w2
            in case fst r2 of
                 Inl err \<Rightarrow> (Inl err, s\<lparr>shared := snd r2\<rparr>)
               | Inr context \<Rightarrow> rendered (Some context) (s\<lparr>shared := snd r2, currentSide := AI\<rparr>))"
  using assms
  by (simp add: handleInput_def processInput_eq pushed_text_def Let_def split: prod.splits sum.splits)

lemma handleInput_ai:
  assumes "trim text \<noteq> []" and "currentSide s = AI"
  shows "handleInput rs mode text s =
           (let r1 = safeCallHook rs ''outputModifier'' text (shared s)
            in (Inr None,
                s\<lparr>shared := push_history \<lparr>h_mode = '''', h_text = pushed_text (fst r1)\<rparr> (snd r1),
                  currentSide := User\<rparr>))"
  using assms
  by (simp add: handleInput_def processOutput_eq pushed_text_def Let_def rendered_def
        renderer_updateMainView_throws_def split: prod.splits sum.splits)

lemma processContext_object:
  assumes "set_prop (memory w) ''frontMemory'' (JStr '''') = Inr m"
  shows "processContext rs w
           = safeCallHook rs ''contextModifier'' (join [CHR 0x0A] (map entry_text (history w)))
               (w\<lparr>memory := m\<rparr>)"
  using assms by (simp add: processContext_def rawContext_def)

lemma processContext_not_object:
  assumes "set_prop (memory w) ''frontMemory'' (JStr '''') = Inl err"
  shows "processContext rs w = (Inl err, w)"
  using assms by (simp add: processContext_def)

lemma set_prop_cases:
  "(\<exists>fs. u = JObj fs \<and> set_prop u p v = Inr (JObj (put_property p v fs)))
     \<or> (\<not> is_object u \<and> (\<exists>m. set_prop u p v = Inl (TypeError m)))"
  by (cases u) auto

lemma dispatch_cases:
  "dispatch rs name = Some run \<Longrightarrow>
     run = runInputModifier rs \<or> run = runContextModifier rs \<or> run = runOutputModifier rs"
  by (auto simp: dispatch_def split: if_splits)

lemma safeCallHook_history:
  assumes "hooks_keep_history rs"
  shows "history (snd (safeCallHook rs name arg w)) = history w"
proof (cases "dispatch rs name")
  case None
  then show ?thesis by (simp add: safeCallHook_snd)
next
  case (Some run)
  with assms have "keeps_history run"
    by (auto simp: hooks_keep_history_def dest: dispatch_cases)
  with Some show ?thesis by (simp add: safeCallHook_snd keeps_history_def)
qed

lemma safeCallHook_prefix:
  assumes "hooks_extend_history rs"
  shows "prefix (history w) (history (snd (safeCallHook rs name arg w)))"
proof (cases "dispatch rs name")
  case None
  then show ?thesis by (simp add: safeCallHook_snd)
next
  case (Some run)
  with assms have "extends_history run"
    by (auto simp: hooks_extend_history_def dest: dispatch_cases)
  with Some show ?thesis by (simp add: safeCallHook_snd extends_history_def)
qed





lemma processContext_history:
  assumes "hooks_keep_history rs"
  shows "history (snd (processContext rs w)) = history w"
  using set_prop_cases [of "memory w" "''frontMemory''" "JStr ''''"]
  by (auto simp: processContext_object processContext_not_object safeCallHook_history [OF assms])

lemma processContext_prefix:
  assumes "hooks_extend_history rs"
  shows "prefix (history w) (history (snd (processContext rs w)))"
proof -
  from set_prop_cases [of "memory w" "''frontMemory''" "JStr ''''"] show ?thesis
  proof (elim disjE exE conjE)
    fix fs
    assume "set_prop (memory w) ''frontMemory'' (JStr '''') = Inr (JObj (put_property ''frontMemory'' (JStr '''') fs))"
    then have "processContext rs w
           = safeCallHook rs ''contextModifier'' (join [CHR 0x0A] (map entry_text (history w)))
               (w\<lparr>memory := JObj (put_property ''frontMemory'' (JStr '''') fs)\<rparr>)"
      by (rule processContext_object)
    with safeCallHook_prefix [OF assms, of "w\<lparr>memory := JObj (put_property ''frontMemory'' (JStr '''') fs)\<rparr>"]
    show ?thesis by simp
  next
    fix m
    assume "set_prop (memory w) ''frontMemory'' (JStr '''') = Inl (TypeError m)"
    then show ?thesis by (simp add: processContext_not_object)
  qed
qed

lemma handleInput_history:
  assumes "hooks_keep_history rs" and "trim text \<noteq> []"
  shows "history (shared (snd (handleInput rs mode text s))) =
           history (shared s) @
             [\<lparr>h_mode = '''',
               h_text = pushed_text (fst (safeCallHook rs
                          (if currentSide s = User then ''inputModifier'' else ''outputModifier'')
                          text (shared s)))\<rparr>]"
proof (cases "currentSide s")
  case User
  with assms show ?thesis
    by (simp add: handleInput_user Let_def processContext_history safeCallHook_history
          push_history_def rendered_snd split: sum.splits)
next
  case AI
  with assms show ?thesis
    by (simp add: handleInput_ai Let_def safeCallHook_history push_history_def)
qed

lemma handleInput_prefix:
  assumes "hooks_extend_history rs"
  shows "prefix (history (shared s)) (history (shared (snd (handleInput rs mode text s))))"
proof (cases "trim text = []")
  case True
  then show ?thesis by (simp add: handleInput_blank)
next
  case False
  show ?thesis
  proof (cases "currentSide s")
    case User
    let ?r1 = "safeCallHook rs ''inputModifier'' text (shared s)"
    let ?w2 = "push_history \<lparr>h_mode = '''', h_text = pushed_text (fst ?r1)\<rparr> (snd ?r1)"
    have 1: "prefix (history (shared s)) (history (snd ?r1))"
      using assms by (rule safeCallHook_prefix)
    have 2: "prefix (history (snd ?r1)) (history ?w2)" by (simp add: push_history_def)
    have 3: "prefix (history ?w2) (history (snd (processContext rs ?w2)))"
      using assms by (rule processContext_prefix)
    from 1 2 3 have "prefix (history (shared s)) (history (snd (processContext rs ?w2)))"
      by (meson prefix_order.order_trans)
    with False User show ?thesis
      by (simp add: handleInput_user Let_def rendered_snd split: sum.splits)
  next
    case AI
    let ?r1 = "safeCallHook rs ''outputModifier'' text (shared s)"
    have 1: "prefix (history (shared s)) (history (snd ?r1))"
      using assms by (rule safeCallHook_prefix)
    then have "prefix (history (shared s)) (history (snd ?r1) @ [\<lparr>h_mode = '''', h_text = pushed_text (fst ?r1)\<rparr>])"
      by (rule prefix_prefix)
    with False AI show ?thesis
      by (simp add: handleInput_ai Let_def push_history_def)
  qed
qed

lemma handle_all_prefix:
  assumes "hooks_extend_history rs"
  shows "prefix (history (shared s)) (history (shared (handle_all rs turns s)))"
proof (induction turns arbitrary: s)
  case Nil
  then show ?case by simp
next
  case (Cons a turns)
  obtain m t where a: "a = (m, t)" by (cases a)
  from handleInput_prefix [OF assms, of s m t] Cons.IH [of "snd (handleInput rs m t s)"] show ?case
    by (auto simp: a intro: prefix_order.order_trans)
qed

lemma keep_extends: "hooks_keep_history rs \<Longrightarrow> hooks_extend_history rs"
  by (simp add: hooks_keep_history_def hooks_extend_history_def keeps_history_def extends_history_def)

lemma handleInput_side:
  assumes "trim text \<noteq> []" and "\<not> isl (fst (handleInput rs mode text s))"
  shows "currentSide (snd (handleInput rs mode text s)) = (if currentSide s = User then AI else User)"
proof (cases "currentSide s")
  case User
  with assms show ?thesis
    by (auto simp: handleInput_user Let_def rendered_snd split: sum.splits)
next
  case AI
  with assms show ?thesis by (simp add: handleInput_ai Let_def)
qed



lemmas eval_defs = handleInput_def processInput_def processOutput_def processContext_def
  safeCallHook_def dispatch_def accept_result_def hook_catch_def push_history_def rawContext_def
  entry_text_def new_Emulator_def init_def module_world_def initial_memory_def identity_hooks_def
  all_hooks_def identity_run_def constant_run_def throwing_run_def effective_mode_def trim_def
  isWhiteSpace_def start_entry_def with_input_hook_def with_context_hook_def pushing_def
  clearing_def replacing_memory_def pushed_text_def rendered_def renderer_updateMainView_throws_def
  buildAIView_throws_def
  hooks_keep_history_def keeps_history_def hooks_extend_history_def extends_history_def
  hooks_keep_memory_def keeps_memory_def hooks_throw_printable_def throws_printable_def



lemma user_turn_shape:
  assumes "trim text \<noteq> []" and "currentSide s = User"
  shows "\<exists>e w1 w2. w1 = snd (safeCallHook rs ''inputModifier'' text (shared s))
           \<and> h_text e = pushed_text (fst (safeCallHook rs ''inputModifier'' text (shared s)))
           \<and> w2 = push_history e w1
           \<and> shared (snd (handleInput rs mode text s)) = snd (processContext rs w2)
           \<and> (\<forall>err. fst (processContext rs w2) = Inl err \<longrightarrow> fst (handleInput rs mode text s) = Inl err)
           \<and> (\<forall>c. fst (processContext rs w2) = Inr c \<longrightarrow>
                 handleInput rs mode text s
                   = rendered (Some c) (s\<lparr>shared := snd (processContext rs w2), currentSide := AI\<rparr>))
           \<and> (\<forall>ctx. fst (handleInput rs mode text s) = Inr ctx \<longrightarrow>
                 (\<exists>c. fst (processContext rs w2) = Inr c \<and> ctx = Some c))"
proof -
  let ?r1 = "safeCallHook rs ''inputModifier'' text (shared s)"
  let ?e = "\<lparr>h_mode = '''', h_text = pushed_text (fst ?r1)\<rparr>"
  let ?w2 = "push_history ?e (snd ?r1)"
  have a: "shared (snd (handleInput rs mode text s)) = snd (processContext rs ?w2)"
    using assms by (simp add: handleInput_user Let_def rendered_snd split: sum.splits)
  have b: "\<forall>err. fst (processContext rs ?w2) = Inl err \<longrightarrow> fst (handleInput rs mode text s) = Inl err"
    using assms by (simp add: handleInput_user Let_def)
  have c: "\<forall>c. fst (processContext rs ?w2) = Inr c \<longrightarrow>
                 handleInput rs mode text s
                   = rendered (Some c) (s\<lparr>shared := snd (processContext rs ?w2), currentSide := AI\<rparr>)"
    using assms by (simp add: handleInput_user Let_def)
  have d: "\<forall>ctx. fst (handleInput rs mode text s) = Inr ctx \<longrightarrow>
                 (\<exists>c. fst (processContext rs ?w2) = Inr c \<and> ctx = Some c)"
    using assms by (auto simp: handleInput_user Let_def split: sum.splits dest: rendered_fst)
  have "h_text ?e = pushed_text (fst ?r1)" by simp
  with a b c d show ?thesis by blast
qed


text \<open>
  Claim C10, as stated, fails: hooks are handed the live \<open>history\<close> array, and after one
  turn whose input hook empties it (\<open>history.length = 0\<close>) the session-start entry is gone:
  \<open>history\<close> holds the entry of the turn only.
\<close>

theorem cleared_history_counterexample:
  "history (shared (snd (handleInput (with_input_hook (clearing identity_run)) (Some ''say'') ''hello''
      (new_Emulator module_world))))
     = [\<lparr>h_mode = '''', h_text = Some ''hello''\<rparr>]
   \<and> hd (history (shared (snd (handleInput (with_input_hook (clearing identity_run)) (Some ''say'')
      ''hello'' (new_Emulator module_world)))))
     \<noteq> \<lparr>h_mode = ''start'', h_text = Some ''=== New Session Started ===''\<rparr>"
  by (simp add: eval_defs)

text \<open>
  Claim C10, amended. In every state reached from a fresh session by any sequence of
  \<open>handleInput\<close> calls whose hooks remove or rewrite no entry of \<open>history\<close> (they may push
  entries), \<open>history\<close> is non-empty and its first entry is the session-start entry
  \<open>{mode: "start", text: "=== New Session Started ==="}\<close>: \<open>init\<close> pushes it before any turn
  runs. With hooks that leave \<open>history\<close> as they found it, the first call of a fresh session
  with non-blank text appends the second entry.
\<close>

theorem session_start_entry_first:
  assumes "hooks_extend_history rs" and "history w = []"
  shows "history (shared (new_Emulator w)) = [start_entry]
       \<and> history (shared (handle_all rs turns (new_Emulator w))) \<noteq> []
       \<and> hd (history (shared (handle_all rs turns (new_Emulator w)))) = start_entry
       \<and> (hooks_keep_history rs \<and> trim text \<noteq> [] \<longrightarrow>
            (\<exists>e. history (shared (snd (handleInput rs mode text (new_Emulator w)))) = [start_entry, e]))"
proof -
  have init: "history (shared (new_Emulator w)) = [start_entry]"
    using assms(2) by (simp add: new_Emulator_def init_def push_history_def start_entry_def)
  have "prefix (history (shared (new_Emulator w))) (history (shared (handle_all rs turns (new_Emulator w))))"
    using assms(1) by (rule handle_all_prefix)
  then obtain zs where "history (shared (handle_all rs turns (new_Emulator w))) = start_entry # zs"
    by (auto simp: init prefix_def)
  moreover have "hooks_keep_history rs \<and> trim text \<noteq> [] \<longrightarrow>
      (\<exists>e. history (shared (snd (handleInput rs mode text (new_Emulator w)))) = [start_entry, e])"
    by (simp add: handleInput_history init)
  ultimately show ?thesis using init by auto
qed

theorem session_start_entry_first_witness:
  "hooks_extend_history (with_input_hook (pushing \<lparr>h_mode = ''story'', h_text = Some ''injected''\<rparr> identity_run))
   \<and> history module_world = []
   \<and> hd (history (shared (handle_all
            (with_input_hook (pushing \<lparr>h_mode = ''story'', h_text = Some ''injected''\<rparr> identity_run))
            [(Some ''say'', ''hello''), (None, ''world'')] (new_Emulator module_world))))
       = \<lparr>h_mode = ''start'', h_text = Some ''=== New Session Started ===''\<rparr>
   \<and> hooks_extend_history identity_hooks \<and> hooks_keep_history identity_hooks
   \<and> trim ''hello'' \<noteq> []
   \<and> history (shared (snd (handleInput identity_hooks (Some ''say'') ''hello'' (new_Emulator module_world))))
       = [\<lparr>h_mode = ''start'', h_text = Some ''=== New Session Started ===''\<rparr>,
          \<lparr>h_mode = '''', h_text = Some ''hello''\<rparr>]"
  using session_start_entry_first [of
          "with_input_hook (pushing \<lparr>h_mode = ''story'', h_text = Some ''injected''\<rparr> identity_run)"
          module_world "[(Some ''say'', ''hello''), (None, ''world'')]" "''hello''" "Some ''say''"]
        session_start_entry_first [of identity_hooks module_world "[]" "''hello''" "Some ''say''"]
  by (simp add: eval_defs)




text \<open>
  Runs outside those conditions. A hook that throws a symbol: the log line in the \<open>catch\<close>
  of \<open>safeCallHook\<close> throws in turn. For the input hook, \<open>processInput\<close> catches that and
  returns \<open>undefined\<close>, which becomes the text of the pushed entry; for the context hook
  nothing catches it, and \<open>handleInput\<close> throws after the push, \<open>currentSide\<close> unchanged. An
  input hook that replaces \<open>state.memory\<close> by \<open>null\<close>: the write in \<open>processContext\<close>
  throws, with the same end. A context hook that does so: \<open>buildAIView\<close> throws on reading
  \<open>state.memory.frontMemory\<close>, after the push and after \<open>currentSide\<close> has become \<open>ai\<close>.
\<close>

lemma thrown_symbol_input_hook:
  "fst (handleInput (with_input_hook (throwing_run (Thrown (JSymbol ''boom'')))) (Some ''say'') ''hello''
      (new_Emulator module_world))
     = Inr (Some (''=== New Session Started ==='' @ [CHR 0x0A] @ ''undefined''))
   \<and> history (shared (snd (handleInput (with_input_hook (throwing_run (Thrown (JSymbol ''boom''))))
      (Some ''say'') ''hello'' (new_Emulator module_world))))
     = [\<lparr>h_mode = ''start'', h_text = Some ''=== New Session Started ===''\<rparr>,
        \<lparr>h_mode = '''', h_text = None\<rparr>]"
  by (simp add: eval_defs)

lemma thrown_symbol_context_hook:
  "fst (handleInput (with_context_hook (throwing_run (Thrown (JSymbol ''boom'')))) (Some ''say'') ''hello''
      (new_Emulator module_world))
     = Inl (TypeError ''Cannot convert a Symbol value to a string'')
   \<and> currentSide (snd (handleInput (with_context_hook (throwing_run (Thrown (JSymbol ''boom''))))
      (Some ''say'') ''hello'' (new_Emulator module_world))) = User
   \<and> history (shared (snd (handleInput (with_context_hook (throwing_run (Thrown (JSymbol ''boom''))))
      (Some ''say'') ''hello'' (new_Emulator module_world))))
     = [\<lparr>h_mode = ''start'', h_text = Some ''=== New Session Started ===''\<rparr>,
        \<lparr>h_mode = '''', h_text = Some ''hello''\<rparr>]"
  by (simp add: eval_defs)

lemma replaced_memory_aborts_turn:
  "fst (handleInput (with_input_hook (replacing_memory JNull (throwing_run (Error ''boom''))))
      (Some ''say'') ''hello'' (new_Emulator module_world))
     = Inl (TypeError ''Cannot set properties of null'')
   \<and> currentSide (snd (handleInput (with_input_hook (replacing_memory JNull (throwing_run (Error ''boom''))))
      (Some ''say'') ''hello'' (new_Emulator module_world))) = User
   \<and> history (shared (snd (handleInput (with_input_hook (replacing_memory JNull (throwing_run (Error ''boom''))))
      (Some ''say'') ''hello'' (new_Emulator module_world))))
     = [\<lparr>h_mode = ''start'', h_text = Some ''=== New Session Started ===''\<rparr>,
        \<lparr>h_mode = '''', h_text = Some ''hello''\<rparr>]"
  by (simp add: eval_defs)

lemma replaced_memory_aborts_render:
  "fst (handleInput (with_context_hook (replacing_memory JNull identity_run))
      (Some ''say'') ''hello'' (new_Emulator module_world))
     = Inl (TypeError ''Cannot read properties of null'')
   \<and> currentSide (snd (handleInput (with_context_hook (replacing_memory JNull identity_run))
      (Some ''say'') ''hello'' (new_Emulator module_world))) = AI
   \<and> history (shared (snd (handleInput (with_context_hook (replacing_memory JNull identity_run))
      (Some ''say'') ''hello'' (new_Emulator module_world))))
     = [\<lparr>h_mode = ''start'', h_text = Some ''=== New Session Started ===''\<rparr>,
        \<lparr>h_mode = '''', h_text = Some ''hello''\<rparr>]"
  by (simp add: eval_defs)

text \<open>
  Claim C7. For every hook invocation: if the value the run returned is not an object
  with a string-typed \<open>text\<close> property (such as \<open>{text: 42}\<close>, \<open>{}\<close>, or a value that is
  not an object), \<open>safeCallHook\<close> returns the original input text, and returns it as a
  value: nothing is thrown to the caller.
\<close>

theorem invalid_shape_falls_back:
  assumes "dispatch rs name = Some run" and "run arg w = (Inr v, w')" and "\<not> has_string_text v"
  shows "safeCallHook rs name arg w = (Inr arg, w')"
  using assms by (simp add: safeCallHook_returned accept_result_invalid)

theorem invalid_shape_falls_back_witness:
  "dispatch (all_hooks (constant_run (JObj [(''text'', JNum 42)]))) ''inputModifier''
     = Some (constant_run (JObj [(''text'', JNum 42)]))
   \<and> constant_run (JObj [(''text'', JNum 42)]) ''hello'' module_world
     = (Inr (JObj [(''text'', JNum 42)]), module_world)
   \<and> \<not> has_string_text (JObj [(''text'', JNum 42)])
   \<and> safeCallHook (all_hooks (constant_run (JObj [(''text'', JNum 42)]))) ''inputModifier'' ''hello''
       module_world = (Inr ''hello'', module_world)
   \<and> \<not> has_string_text (JObj [])
   \<and> safeCallHook (all_hooks (constant_run (JObj []))) ''contextModifier'' ''hello''
       module_world = (Inr ''hello'', module_world)
   \<and> \<not> has_string_text JUndefined
   \<and> safeCallHook (all_hooks (constant_run JUndefined)) ''outputModifier'' ''hello''
       module_world = (Inr ''hello'', module_world)"
  using invalid_shape_falls_back [of "all_hooks (constant_run (JObj [(''text'', JNum 42)]))"
          "''inputModifier''" "constant_run (JObj [(''text'', JNum 42)])" "''hello''" module_world
          "JObj [(''text'', JNum 42)]" module_world]
        invalid_shape_falls_back [of "all_hooks (constant_run (JObj []))"
          "''contextModifier''" "constant_run (JObj [])" "''hello''" module_world
          "JObj []" module_world]
        invalid_shape_falls_back [of "all_hooks (constant_run JUndefined)"
          "''outputModifier''" "constant_run JUndefined" "''hello''" module_world
          JUndefined module_world]
  by (simp add: dispatch_def all_hooks_def constant_run_def)

lemma invalid_shape_examples:
  "\<not> has_string_text (JObj [(''text'', JNum 42)])" "\<not> has_string_text (JObj [])"
  "\<not> has_string_text (JStr s)" "\<not> has_string_text (JNum n)" "\<not> has_string_text (JBool b)"
  "\<not> has_string_text (JSymbol d)" "\<not> has_string_text JNull" "\<not> has_string_text JUndefined"
  by simp_all

text \<open>
  Claim C8, as stated, fails: a modifier that returns the plain string \<open>"HELLO"\<close> for the
  input \<open>"hello"\<close> is not accepted; the effective output is the input \<open>"hello"\<close>.
\<close>

theorem plain_string_result_counterexample:
  "safeCallHook (all_hooks (constant_run (JStr ''HELLO''))) ''inputModifier'' ''hello'' module_world
     = (Inr ''hello'', module_world)
   \<and> fst (safeCallHook (all_hooks (constant_run (JStr ''HELLO''))) ''inputModifier'' ''hello'' module_world)
     \<noteq> Inr ''HELLO''"
  by (simp add: safeCallHook_def dispatch_def all_hooks_def constant_run_def accept_result_def)

text \<open>
  Claim C8, amended. The value a modifier returns is accepted exactly when it is an
  object whose \<open>text\<close> property is a string, and then that string is the hook's effective
  output; every other returned value, a plain string included, triggers the identity
  fallback: the effective output is the original input.
\<close>

theorem only_text_objects_are_accepted:
  assumes "dispatch rs name = Some run" and "run arg w = (Inr v, w')"
  shows "safeCallHook rs name arg w =
           (Inr (case v of
                   JObj fs \<Rightarrow> (case map_of fs ''text'' of Some (JStr t) \<Rightarrow> t | _ \<Rightarrow> arg)
                 | _ \<Rightarrow> arg), w')"
  using assms by (simp add: safeCallHook_returned accept_result_eq)

theorem only_text_objects_are_accepted_witness:
  "dispatch identity_hooks ''outputModifier'' = Some identity_run
   \<and> identity_run ''hello'' module_world = (Inr (JObj [(''text'', JStr ''hello'')]), module_world)
   \<and> safeCallHook identity_hooks ''outputModifier'' ''hello'' module_world = (Inr ''hello'', module_world)
   \<and> dispatch (all_hooks (constant_run (JObj [(''text'', JStr ''HELLO'')]))) ''outputModifier''
        = Some (constant_run (JObj [(''text'', JStr ''HELLO'')]))
   \<and> safeCallHook (all_hooks (constant_run (JObj [(''text'', JStr ''HELLO'')]))) ''outputModifier''
        ''hello'' module_world = (Inr ''HELLO'', module_world)"
  using only_text_objects_are_accepted [of identity_hooks "''outputModifier''" identity_run
          "''hello''" module_world "JObj [(''text'', JStr ''hello'')]" module_world]
        only_text_objects_are_accepted [of "all_hooks (constant_run (JObj [(''text'', JStr ''HELLO'')]))"
          "''outputModifier''" "constant_run (JObj [(''text'', JStr ''HELLO'')])"
          "''hello''" module_world "JObj [(''text'', JStr ''HELLO'')]" module_world]
  by (simp add: dispatch_def all_hooks_def constant_run_def identity_hooks_def identity_run_def)

text \<open>
  Claim C3, as stated, fails: in a fresh session with identity hooks,
  \<open>handleInput("say", "hello")\<close> leaves the session-start entry first in \<open>history\<close>, the
  appended entry is not \<open>{mode: "say", text: "hello"}\<close>, and the context is not \<open>"hello"\<close>.
\<close>

theorem fresh_say_hello_counterexample:
  "history (shared (snd (handleInput identity_hooks (Some ''say'') ''hello'' (new_Emulator module_world))))
     = [\<lparr>h_mode = ''start'', h_text = Some ''=== New Session Started ===''\<rparr>,
        \<lparr>h_mode = '''', h_text = Some ''hello''\<rparr>]
   \<and> history (shared (snd (handleInput identity_hooks (Some ''say'') ''hello'' (new_Emulator module_world))))
     \<noteq> [\<lparr>h_mode = ''say'', h_text = Some ''hello''\<rparr>]
   \<and> h_mode (last (history (shared (snd (handleInput identity_hooks (Some ''say'') ''hello''
         (new_Emulator module_world)))))) \<noteq> ''say''
   \<and> fst (handleInput identity_hooks (Some ''say'') ''hello'' (new_Emulator module_world))
     \<noteq> Inr (Some ''hello'')"
  by (simp add: eval_defs)

text \<open>
  Claim C3, amended. For every user-side call \<open>handleInput(mode, text)\<close> with non-blank
  text, the engine appends exactly one entry: it pushes it onto \<open>history\<close> as the input hook
  left it, and the state the call leaves is that of \<open>processContext\<close> run after that push.
  What \<open>processContext\<close> throws, the call throws; the context it returns goes to the
  renderer with \<open>currentSide\<close> set to \<open>ai\<close>, and the outcome of the call is that of the
  renderer. The \<open>text\<close> of the entry is the \<open>inputModifier\<close> result, whenever
  \<open>safeCallHook\<close> returns one. With hooks that leave \<open>history\<close> as they found it, \<open>history\<close>
  after the call is \<open>history\<close> before the call followed by that entry. When the call does
  not throw, \<open>currentSide\<close> is \<open>ai\<close>. In a fresh session with identity hooks,
  \<open>handleInput("say", "hello")\<close> leaves the session-start entry followed by an entry with
  text \<open>"hello"\<close>, \<open>currentSide\<close> is \<open>ai\<close>, and the context is the two texts joined by a
  newline.
\<close>

theorem user_turn_appends_input_result:
  assumes "trim text \<noteq> []" and "currentSide s = User"
  shows "(\<exists>e w1 w2. w1 = snd (safeCallHook rs ''inputModifier'' text (shared s))
            \<and> w2 = push_history e w1
            \<and> (\<forall>out. fst (safeCallHook rs ''inputModifier'' text (shared s)) = Inr out
                  \<longrightarrow> h_text e = Some out)
            \<and> shared (snd (handleInput rs mode text s)) = snd (processContext rs w2)
            \<and> (\<forall>err. fst (processContext rs w2) = Inl err
                  \<longrightarrow> fst (handleInput rs mode text s) = Inl err)
            \<and> (\<forall>c. fst (processContext rs w2) = Inr c
                  \<longrightarrow> handleInput rs mode text s
                        = rendered (Some c) (s\<lparr>shared := snd (processContext rs w2), currentSide := AI\<rparr>))
            \<and> (hooks_keep_history rs
                  \<longrightarrow> history (shared (snd (handleInput rs mode text s))) = history (shared s) @ [e]))
       \<and> (\<not> isl (fst (handleInput rs mode text s))
            \<longrightarrow> currentSide (snd (handleInput rs mode text s)) = AI)"
proof -
  from user_turn_shape [OF assms, of rs mode] obtain e w1 w2 where
    w1: "w1 = snd (safeCallHook rs ''inputModifier'' text (shared s))" and
    e: "h_text e = pushed_text (fst (safeCallHook rs ''inputModifier'' text (shared s)))" and
    w2: "w2 = push_history e w1" and
    sh: "shared (snd (handleInput rs mode text s)) = snd (processContext rs w2)" and
    bad: "\<forall>err. fst (processContext rs w2) = Inl err \<longrightarrow> fst (handleInput rs mode text s) = Inl err" and
    r: "\<forall>c. fst (processContext rs w2) = Inr c \<longrightarrow>
                 handleInput rs mode text s
                   = rendered (Some c) (s\<lparr>shared := snd (processContext rs w2), currentSide := AI\<rparr>)"
    by blast
  have out: "\<forall>out. fst (safeCallHook rs ''inputModifier'' text (shared s)) = Inr out
                  \<longrightarrow> h_text e = Some out"
    by (simp add: e pushed_text_def)
  have keep: "hooks_keep_history rs
                  \<longrightarrow> history (shared (snd (handleInput rs mode text s))) = history (shared s) @ [e]"
    by (simp add: sh w2 w1 processContext_history push_history_def safeCallHook_history)
  have side: "\<not> isl (fst (handleInput rs mode text s))
            \<longrightarrow> currentSide (snd (handleInput rs mode text s)) = AI"
    using assms by (simp add: handleInput_side)
  from w1 w2 out sh bad r keep side show ?thesis by blast
qed

theorem user_turn_appends_input_result_witness:
  "trim ''hello'' \<noteq> [] \<and> currentSide (new_Emulator module_world) = User
   \<and> hooks_keep_history identity_hooks
   \<and> fst (safeCallHook identity_hooks ''inputModifier'' ''hello'' (shared (new_Emulator module_world)))
       = Inr ''hello''
   \<and> history (shared (snd (handleInput identity_hooks (Some ''say'') ''hello''
        (new_Emulator module_world))))
       = [start_entry, \<lparr>h_mode = '''', h_text = Some ''hello''\<rparr>]
   \<and> \<not> isl (fst (handleInput identity_hooks (Some ''say'') ''hello'' (new_Emulator module_world)))
   \<and> currentSide (snd (handleInput identity_hooks (Some ''say'') ''hello'' (new_Emulator module_world))) = AI
   \<and> fst (handleInput identity_hooks (Some ''say'') ''hello'' (new_Emulator module_world))
       = Inr (Some (''=== New Session Started ==='' @ [CHR 0x0A] @ ''hello''))"
  using user_turn_appends_input_result [of "''hello''" "new_Emulator module_world" identity_hooks
          "Some ''say''"]
  by (simp add: eval_defs)









section \<open>Properties of the story-card registry\<close>

lemma hex_digits_decode:
  "list_all (\<lambda>n. hex_value (hex_digit n) = n) [0..<16]"
  by code_simp

lemma hex_value_digit: "n < 16 \<Longrightarrow> hex_value (hex_digit n) = n"
  using hex_digits_decode by (simp add: list_all_iff del: hex_value.simps)

lemma unescape_escape: "unescape_token (json_escape c) = c"
proof (cases "(of_char c :: nat) < 32")
  case True
  then have "16 * ((of_char c :: nat) div 16) + (of_char c :: nat) mod 16 = of_char c" by simp
  with True show ?thesis
    by (simp add: json_escape_def hex_value_digit del: hex_value.simps)
next
  case False
  then show ?thesis by (auto simp: json_escape_def)
qed

lemma json_escape_inj: "json_escape c = json_escape c' \<Longrightarrow> c = c'"
  by (metis unescape_escape)

lemma tok_len_escape: "tok_len (json_escape c @ r) = length (json_escape c)"
  by (cases r) (auto simp: json_escape_def)

lemma escape_not_quote: "json_escape c @ r \<noteq> CHR 0x22 # r'"
  by (auto simp: json_escape_def)

lemma escaped_body_inj:
  "concat (map json_escape s) @ CHR 0x22 # r = concat (map json_escape s') @ CHR 0x22 # r'
     \<Longrightarrow> s = s' \<and> r = r'"
proof (induction s arbitrary: s')
  case Nil
  show ?case
  proof (cases s')
    case Nil
    with Nil.prems show ?thesis by simp
  next
    case (Cons c' t')
    with Nil.prems have "json_escape c' @ (concat (map json_escape t') @ CHR 0x22 # r') = CHR 0x22 # r"
      by simp
    then show ?thesis by (simp add: escape_not_quote)
  qed
next
  case (Cons c t)
  show ?case
  proof (cases s')
    case Nil
    with Cons.prems have "json_escape c @ (concat (map json_escape t) @ CHR 0x22 # r) = CHR 0x22 # r'"
      by simp
    then show ?thesis by (simp add: escape_not_quote)
  next
    case (Cons c' t')
    let ?X = "concat (map json_escape t) @ CHR 0x22 # r"
    let ?X' = "concat (map json_escape t') @ CHR 0x22 # r'"
    from Cons Cons.prems have eq: "json_escape c @ ?X = json_escape c' @ ?X'" by simp
    then have "tok_len (json_escape c @ ?X) = tok_len (json_escape c' @ ?X')" by simp
    then have len: "length (json_escape c) = length (json_escape c')"
      by (simp only: tok_len_escape)
    with eq have "json_escape c = json_escape c'" and rest: "?X = ?X'" by auto
    then have "c = c'" by (simp add: json_escape_inj)
    moreover from rest have "t = t' \<and> r = r'" by (rule Cons.IH)
    ultimately show ?thesis using Cons by simp
  qed
qed

lemma json_quote_inj: "json_quote s @ r = json_quote s' @ r' \<Longrightarrow> s = s' \<and> r = r'"
  using escaped_body_inj [of s r s' r'] by (simp add: json_quote_def)

lemma json_quote_hd: "json_quote s @ r = c # r' \<Longrightarrow> c = CHR 0x22"
  by (simp add: json_quote_def)

lemma joined_quotes_inj:
  "join '','' (map json_quote ks) @ '']'' = join '','' (map json_quote ks') @ '']'' \<Longrightarrow> ks = ks'"
proof (induction ks arbitrary: ks')
  case Nil
  show ?case
  proof (cases ks')
    case Nil
    then show ?thesis by simp
  next
    case (Cons k' t')
    with Nil.prems have "\<exists>r'. json_quote k' @ r' = '']''"
      by (cases t') auto
    then show ?thesis by (auto dest: json_quote_hd)
  qed
next
  case (Cons k t)
  note prems = Cons.prems and IH = Cons.IH
  show ?case
  proof (cases ks')
    case Nil
    with prems have "\<exists>r'. json_quote k @ r' = '']''"
      by (cases t) auto
    then show ?thesis by (auto dest: json_quote_hd)
  next
    case (Cons k' t')
    have shape: "\<And>x xs. join '','' (map json_quote (x # xs)) @ '']''
                   = json_quote x @ (if xs = [] then '']'' else '','' @ join '','' (map json_quote xs) @ '']'')"
    proof -
      fix x :: string and xs
      show "join '','' (map json_quote (x # xs)) @ '']''
                   = json_quote x @ (if xs = [] then '']'' else '','' @ join '','' (map json_quote xs) @ '']'')"
        by (cases xs) simp_all
    qed
    from prems Cons
    have eq: "json_quote k @ (if t = [] then '']'' else '','' @ join '','' (map json_quote t) @ '']'')
            = json_quote k' @ (if t' = [] then '']'' else '','' @ join '','' (map json_quote t') @ '']'')"
      by (simp only: shape)
    from json_quote_inj [OF eq] have kk: "k = k'"
      and rest: "(if t = [] then '']'' else '','' @ join '','' (map json_quote t) @ '']'')
               = (if t' = [] then '']'' else '','' @ join '','' (map json_quote t') @ '']'')"
      by auto
    have "t = t'"
    proof (cases "t = []")
      case True
      with rest show ?thesis by (cases "t' = []") auto
    next
      case False
      with rest have t': "t' \<noteq> []" by (cases "t' = []") auto
      with False rest have "join '','' (map json_quote t) @ '']'' = join '','' (map json_quote t') @ '']''"
        by simp
      then show ?thesis by (rule IH)
    qed
    with kk Cons show ?thesis by simp
  qed
qed

lemma JSON_stringify_inj: "JSON_stringify ks = JSON_stringify ks' \<longleftrightarrow> ks = ks'"
proof
  assume "JSON_stringify ks = JSON_stringify ks'"
  then have "join '','' (map json_quote ks) @ '']'' = join '','' (map json_quote ks') @ '']''"
    by (simp add: JSON_stringify_def)
  then show "ks = ks'" by (rule joined_quotes_inj)
qed simp

lemma addStoryCard_rejects_identical_keys_aux:
  "addStoryCard keys entry ty cards =
     (if \<exists>c \<in> set cards. card_keys c = keys then (AddFalse, cards)
      else (AddIndex (length cards),
            cards @ [\<lparr>card_id = length cards, card_keys = keys, card_entry = entry,
                      card_type = type_or_default ty\<rparr>]))"
  by (simp add: addStoryCard_def list_ex_iff JSON_stringify_inj Let_def)

text \<open>
  Claim C5. For every registry and every call \<open>addStoryCard(keys, entry, type)\<close>: if an
  existing card has the same key sequence as \<open>keys\<close> (the comparison is of the
  \<open>JSON.stringify\<close> serialisations, which agree exactly when the sequences are equal, order
  included), the call returns \<open>false\<close> and leaves the registry unchanged; otherwise it appends
  one card and returns its index. Adding \<open>["a", "b"]\<close> twice returns an index, then \<open>false\<close>.
\<close>

theorem addStoryCard_rejects_identical_keys:
  "addStoryCard keys entry ty cards =
     (if \<exists>c \<in> set cards. card_keys c = keys then (AddFalse, cards)
      else (AddIndex (length cards),
            cards @ [\<lparr>card_id = length cards, card_keys = keys, card_entry = entry,
                      card_type = type_or_default ty\<rparr>]))"
  by (rule addStoryCard_rejects_identical_keys_aux)

theorem addStoryCard_rejects_identical_keys_witness:
  "addStoryCard [''a'', ''b''] ''lore'' None []
     = (AddIndex 0, [\<lparr>card_id = 0, card_keys = [''a'', ''b''], card_entry = ''lore'', card_type = ''general''\<rparr>])
   \<and> addStoryCard [''a'', ''b''] ''other'' (Some ''place'')
       [\<lparr>card_id = 0, card_keys = [''a'', ''b''], card_entry = ''lore'', card_type = ''general''\<rparr>]
     = (AddFalse, [\<lparr>card_id = 0, card_keys = [''a'', ''b''], card_entry = ''lore'', card_type = ''general''\<rparr>])
   \<and> addStoryCard [''b'', ''a''] ''other'' (Some ''place'')
       [\<lparr>card_id = 0, card_keys = [''a'', ''b''], card_entry = ''lore'', card_type = ''general''\<rparr>]
     = (AddIndex 1,
        [\<lparr>card_id = 0, card_keys = [''a'', ''b''], card_entry = ''lore'', card_type = ''general''\<rparr>,
         \<lparr>card_id = 1, card_keys = [''b'', ''a''], card_entry = ''other'', card_type = ''place''\<rparr>])"
  using addStoryCard_rejects_identical_keys [of "[''a'', ''b'']" "''lore''" None "[]"]
        addStoryCard_rejects_identical_keys [of "[''a'', ''b'']" "''other''" "Some ''place''"
          "[\<lparr>card_id = 0, card_keys = [''a'', ''b''], card_entry = ''lore'', card_type = ''general''\<rparr>]"]
        addStoryCard_rejects_identical_keys [of "[''b'', ''a'']" "''other''" "Some ''place''"
          "[\<lparr>card_id = 0, card_keys = [''a'', ''b''], card_entry = ''lore'', card_type = ''general''\<rparr>]"]
  by (simp add: type_or_default_def)

lemma removeStoryCard_out_of_range:
  "(\<exists>e. removeStoryCard index cards = Inl e) \<longleftrightarrow> \<not> (0 \<le> index \<and> index < int (length cards))"
  by (auto simp: removeStoryCard_def)

lemma removeStoryCard_in_range:
  assumes "0 \<le> index" and "index < int (length cards)"
  shows "\<exists>cards'. removeStoryCard index cards = Inr cards'
           \<and> length cards' = length cards - 1
           \<and> (\<forall>j < nat index. cards' ! j = cards ! j)
           \<and> (\<forall>j. nat index \<le> j \<and> j < length cards' \<longrightarrow> cards' ! j = cards ! Suc j)"
  using assms
  by (auto simp: removeStoryCard_def splice1_def nth_append min_def)

text \<open>
  Claim C6. \<open>removeStoryCard(index)\<close> throws exactly when the index is out of bounds and
  otherwise deletes the card at that position, the later cards moving down one position
  (\<open>removeStoryCard_out_of_range\<close>, \<open>removeStoryCard_in_range\<close>). But the \<open>id\<close> stored in a card
  is not renumbered: after two cards are added and the card at index 0 is removed, the
  remaining card has the keys and entry of the second card and still carries \<open>id\<close> 1, where
  the claim has 0.
\<close>

theorem removeStoryCard_keeps_stale_id:
  "snd (addStoryCard [''b''] ''second'' None (snd (addStoryCard [''a''] ''first'' None [])))
     = [\<lparr>card_id = 0, card_keys = [''a''], card_entry = ''first'', card_type = ''general''\<rparr>,
        \<lparr>card_id = 1, card_keys = [''b''], card_entry = ''second'', card_type = ''general''\<rparr>]
   \<and> removeStoryCard 0
        [\<lparr>card_id = 0, card_keys = [''a''], card_entry = ''first'', card_type = ''general''\<rparr>,
         \<lparr>card_id = 1, card_keys = [''b''], card_entry = ''second'', card_type = ''general''\<rparr>]
     = Inr [\<lparr>card_id = 1, card_keys = [''b''], card_entry = ''second'', card_type = ''general''\<rparr>]"
  by (simp add: addStoryCard_rejects_identical_keys_aux removeStoryCard_def splice1_def type_or_default_def)

section \<open>Properties of the loaders\<close>

lemma after_prefix_Some: "after_prefix p s = Some r \<longleftrightarrow> s = p @ r"
  by (induction p s rule: after_prefix.induct) auto

lemma m_not_ws: "\<not> isWhiteSpace (CHR ''m'')"
  by (simp add: isWhiteSpace_def)

lemma count_m_skip_ws: "count_list (skip_ws r) (CHR ''m'') = count_list r (CHR ''m'')"
proof -
  have "count_list (takeWhile isWhiteSpace r) (CHR ''m'') = 0"
    by (induction r) (auto simp: m_not_ws)
  moreover have "r = takeWhile isWhiteSpace r @ skip_ws r" by (simp add: skip_ws_def)
  ultimately show ?thesis by (metis add_0 count_list_append)
qed

lemma after_prefix_m:
  "after_prefix p s = Some r \<Longrightarrow> count_list s (CHR ''m'') = count_list p (CHR ''m'') + count_list r (CHR ''m'')"
  by (simp add: after_prefix_Some)

lemma matches_count_m:
  assumes "matches_trailing_call s"
  shows "count_list s (CHR ''m'') = 1"
proof -
  from assms obtain r1 r2 r3 r4 where
    1: "after_prefix ''modifier'' s = Some r1" and
    2: "after_prefix ''('' (skip_ws r1) = Some r2" and
    3: "after_prefix ''text'' (skip_ws r2) = Some r3" and
    4: "after_prefix '')'' (skip_ws r3) = Some r4" and
    5: "(case after_prefix '';'' (skip_ws r4) of None \<Rightarrow> skip_ws r4 = [] | Some r5 \<Rightarrow> skip_ws r5 = [])"
    unfolding matches_trailing_call_def by (auto split: option.splits)
  have r4: "count_list r4 (CHR ''m'') = 0"
  proof (cases "after_prefix '';'' (skip_ws r4)")
    case None
    with 5 have "skip_ws r4 = []" by simp
    then have "count_list (skip_ws r4) (CHR ''m'') = 0" by simp
    then show ?thesis by (simp only: count_m_skip_ws)
  next
    case (Some r5)
    with 5 have "skip_ws r5 = []" by simp
    then have "count_list (skip_ws r5) (CHR ''m'') = 0" by simp
    then have "count_list r5 (CHR ''m'') = 0" by (simp only: count_m_skip_ws)
    with after_prefix_m [OF Some] have "count_list (skip_ws r4) (CHR ''m'') = 0" by simp
    then show ?thesis by (simp only: count_m_skip_ws)
  qed
  from after_prefix_m [OF 4] r4 have "count_list r3 (CHR ''m'') = 0" by (simp add: count_m_skip_ws)
  with after_prefix_m [OF 3] have "count_list r2 (CHR ''m'') = 0" by (simp add: count_m_skip_ws)
  with after_prefix_m [OF 2] have "count_list r1 (CHR ''m'') = 0" by (simp add: count_m_skip_ws)
  with after_prefix_m [OF 1] show ?thesis by simp
qed

lemma matches_starts_with_m: "matches_trailing_call s \<Longrightarrow> \<exists>t. s = CHR ''m'' # t"
  by (auto simp: matches_trailing_call_def after_prefix_Some split: option.splits)

lemma no_earlier_match:
  assumes "matches_trailing_call call"
  shows "\<not> matches_trailing_call (c # q @ call)"
proof
  assume m: "matches_trailing_call (c # q @ call)"
  then have "c = CHR ''m''" by (auto dest: matches_starts_with_m)
  moreover from m have "count_list (c # q @ call) (CHR ''m'') = 1" by (rule matches_count_m)
  moreover from assms have "count_list call (CHR ''m'') = 1" by (rule matches_count_m)
  ultimately show False by simp
qed

lemma capture_call_rewrites:
  assumes "matches_trailing_call call"
  shows "capture_call (decls @ call) = decls @ ''return modifier(text);''"
proof (induction decls)
  case Nil
  from assms obtain t where "call = CHR ''m'' # t" by (auto dest: matches_starts_with_m)
  with assms show ?case by simp
next
  case (Cons c q)
  with no_earlier_match [OF assms, of c q] show ?case by simp
qed

lemma skip_ws_all: "\<forall>c \<in> set ws. isWhiteSpace c \<Longrightarrow> skip_ws (ws @ s) = skip_ws s"
  by (induction ws) (auto simp: skip_ws_def)

lemma skip_ws_stop: "\<not> isWhiteSpace c \<Longrightarrow> skip_ws (c # s) = c # s"
  by (simp add: skip_ws_def)

lemma trailing_call_forms:
  assumes "\<forall>c \<in> set w1. isWhiteSpace c" and "\<forall>c \<in> set w2. isWhiteSpace c"
      and "\<forall>c \<in> set w3. isWhiteSpace c" and "\<forall>c \<in> set w4. isWhiteSpace c"
      and "\<forall>c \<in> set w5. isWhiteSpace c"
  shows "matches_trailing_call (''modifier'' @ w1 @ ''('' @ w2 @ ''text'' @ w3 @ '')'' @ w4 @ w5)"
    and "matches_trailing_call (''modifier'' @ w1 @ ''('' @ w2 @ ''text'' @ w3 @ '')'' @ w4 @ '';'' @ w5)"
proof -
  have nw: "\<not> isWhiteSpace (CHR ''('')" "\<not> isWhiteSpace (CHR ''t'')" "\<not> isWhiteSpace (CHR '')'')"
    "\<not> isWhiteSpace (CHR '';'')"
    by (simp_all add: isWhiteSpace_def)
  have e: "skip_ws w5 = []" using assms(5) skip_ws_all [of w5 "[]"] by (simp add: skip_ws_def)
  have e45: "skip_ws (w4 @ w5) = []"
    using assms(4) skip_ws_all [of w4 w5] e by simp
  have ap: "\<And>p s. after_prefix p (p @ s) = Some s" by (simp add: after_prefix_Some)
  have s1: "\<And>s. skip_ws (w1 @ CHR ''('' # s) = CHR ''('' # s"
    using assms(1) by (simp add: skip_ws_all skip_ws_stop nw)
  have s2: "\<And>s. skip_ws (w2 @ CHR ''t'' # s) = CHR ''t'' # s"
    using assms(2) by (simp add: skip_ws_all skip_ws_stop nw)
  have s3: "\<And>s. skip_ws (w3 @ CHR '')'' # s) = CHR '')'' # s"
    using assms(3) by (simp add: skip_ws_all skip_ws_stop nw)
  have s4: "\<And>s. skip_ws (w4 @ CHR '';'' # s) = CHR '';'' # s"
    using assms(4) by (simp add: skip_ws_all skip_ws_stop nw)
  have a1: "after_prefix ''modifier'' (''modifier'' @ r) = Some r" for r by (rule ap)
  have a2: "after_prefix ''text'' (CHR ''t'' # ''ext'' @ r) = Some r" for r by simp
  show "matches_trailing_call (''modifier'' @ w1 @ ''('' @ w2 @ ''text'' @ w3 @ '')'' @ w4 @ w5)"
    unfolding matches_trailing_call_def
    by (simp only: a1 option.case) (simp add: s1 s2 s3 e45)
  show "matches_trailing_call (''modifier'' @ w1 @ ''('' @ w2 @ ''text'' @ w3 @ '')'' @ w4 @ '';'' @ w5)"
    unfolding matches_trailing_call_def
    by (simp only: a1 option.case) (simp add: s1 s2 s3 s4 e)
qed

lemma loadModifier_served:
  assumes "matches_trailing_call call"
      and "path \<noteq> ''../Script/Library.js''" and "path \<noteq> ''./Library.js''"
  shows "loadModifier (serving lib (decls @ call)) engine path keys text w
           = engine (sandbox_source (globalsCode keys) lib (decls @ ''return modifier(text);'')) text w"
  using assms(2,3) by (simp add: loadModifier_def serving_def capture_call_rewrites [OF assms(1)])

lemma loadModifier_not_ok:
  assumes "fetch ''../Script/Library.js'' = Inr libResp" and "fetch path = Inr modResp"
      and "\<not> ok libResp \<or> \<not> ok modResp"
  shows "\<exists>msg. loadModifier fetch engine path keys text w = (Inl (Error msg), w)"
  using assms by (auto simp: loadModifier_def)

lemma loadModifier_rejected:
  assumes "fetch ''../Script/Library.js'' = Inl err \<or> fetch path = Inl err"
  shows "\<exists>e. loadModifier fetch engine path keys text w = (Inl e, w)"
  using assms by (auto simp: loadModifier_def split: sum.splits)

lemma after_prefix_across_newline:
  "CHR 0x0A \<notin> set p \<Longrightarrow>
     (after_prefix p (u @ CHR 0x0A # t) = None) = (after_prefix p u = None)"
  by (induction p u rule: after_prefix.induct) auto

lemma count_calls_across_newline:
  "count_calls (u @ CHR 0x0A # t) = count_calls u + count_calls (CHR 0x0A # t)"
proof (induction u)
  case Nil
  show ?case by simp
next
  case (Cons c u)
  have "(after_prefix ''modifier(text)'' ((c # u) @ CHR 0x0A # t) = None)
          = (after_prefix ''modifier(text)'' (c # u) = None)"
    by (rule after_prefix_across_newline) simp
  then have "(after_prefix ''modifier(text)'' (c # u @ CHR 0x0A # t) = None)
          = (after_prefix ''modifier(text)'' (c # u) = None)" by simp
  with Cons show ?case by (simp del: after_prefix.simps)
qed

lemma append_capture_adds_a_call: "count_calls (append_capture src) = count_calls src + 1"
proof -
  have "count_calls (CHR 0x0A # ''__modifierReturn = modifier(text);'') = 1" by simp
  then show ?thesis
    by (simp only: append_capture_def append_Cons append_Nil count_calls_across_newline)
qed

text \<open>
  Claim C9. The hook source \<open>const modifier = (text) => ({ text })\<close>, newline,
  \<open>modifier(text)\<close> ends with the call the contract asks for. The loader in
  emulator/Loader.js (the copy whose header comment is \<open>sandboxLoader.js\<close>) keeps that call
  and appends \<open>__modifierReturn = modifier(text);\<close> after it, so the body it hands to the
  engine calls \<open>modifier\<close> at two places, one after the other, and ends by returning
  \<open>globals.__modifierReturn\<close>. The other copy of the loader (header comment \<open>Loader.js\<close>)
  rewrites the trailing call into \<open>return modifier(text);\<close> instead, which leaves one call
  (\<open>capture_call_rewrites\<close>, for the call written with or without the semicolon).
\<close>

theorem sandboxLoader_runs_modifier_twice:
  "append_capture identity_hook_source
     = ''const modifier = (text) => ({ text })'' @ [CHR 0x0A] @ ''modifier(text)'' @ [CHR 0x0A]
       @ ''__modifierReturn = modifier(text);''
   \<and> count_calls identity_hook_source = 1
   \<and> count_calls (append_capture identity_hook_source) = 2
   \<and> sandboxLoader_loadModifier (serving lib identity_hook_source) engine ''./Input.js'' arg w
     = engine (sandboxLoader_source lib (append_capture identity_hook_source)) arg w
   \<and> capture_call identity_hook_source
     = ''const modifier = (text) => ({ text })'' @ [CHR 0x0A] @ ''return modifier(text);''
   \<and> count_calls (capture_call identity_hook_source) = 1"
proof -
  have a: "append_capture identity_hook_source
     = ''const modifier = (text) => ({ text })'' @ [CHR 0x0A] @ ''modifier(text)'' @ [CHR 0x0A]
       @ ''__modifierReturn = modifier(text);''"
    by (simp add: append_capture_def identity_hook_source_def)
  have b: "count_calls identity_hook_source = 1"
    by (simp add: identity_hook_source_def)
  have c: "count_calls (append_capture identity_hook_source) = 2"
    by (simp only: append_capture_adds_a_call b)
  have d: "sandboxLoader_loadModifier (serving lib identity_hook_source) engine ''./Input.js'' arg w
     = engine (sandboxLoader_source lib (append_capture identity_hook_source)) arg w"
    by (simp add: sandboxLoader_loadModifier_def serving_def)
  have m: "matches_trailing_call ''modifier(text)''"
    by (simp add: matches_trailing_call_def skip_ws_def isWhiteSpace_def)
  have e: "capture_call identity_hook_source
     = ''const modifier = (text) => ({ text })'' @ [CHR 0x0A] @ ''return modifier(text);''"
    unfolding identity_hook_source_def
    using capture_call_rewrites [OF m, of "''const modifier = (text) => ({ text })'' @ [CHR 0x0A]"]
    by simp
  have f: "count_calls (capture_call identity_hook_source) = 1"
    by (simp add: e)
  from a b c d e f show ?thesis by blast
qed

lemma load_failure_falls_back:
  assumes "fetch ''../Script/Input.js'' = Inr modResp" and "\<not> ok modResp"
      and "fetch ''../Script/Library.js'' = Inr libResp"
  shows "safeCallHook (loader_runners fetch engine) ''inputModifier'' arg w = (Inr arg, w)"
proof -
  from assms obtain msg where
    "loadModifier fetch engine ''../Script/Input.js'' hook_global_keys arg w = (Inl (Error msg), w)"
    using loadModifier_not_ok [of fetch libResp "''../Script/Input.js''" modResp] by blast
  then show ?thesis
    by (simp add: safeCallHook_def dispatch_def loader_runners_def hook_catch_def)
qed

end
